theory Spec2Isabelle
  imports Main
begin

section \<open>Python values used by \<^verbatim>\<open>hb.py\<close>\<close>

text \<open>
  A Python \<^verbatim>\<open>str\<close> is modelled as a \<^typ>\<open>string\<close>, one \<^typ>\<open>char\<close> per code
  point, so the strings of this development are the Python strings whose code points
  are below 256 (ASCII and the Latin-1 supplement). The character classes below are
  Python's on these code points.
\<close>

definition digits :: string where
  "digits = ''0123456789''"

definition lowers :: string where
  "lowers = ''abcdefghijklmnopqrstuvwxyz''"

definition uppers :: string where
  "uppers = ''ABCDEFGHIJKLMNOPQRSTUVWXYZ''"

text \<open>
  The capital letters of the Latin-1 supplement, \<^verbatim>\<open>0xC0\<close> to \<^verbatim>\<open>0xDE\<close> without the
  multiplication sign \<^verbatim>\<open>0xD7\<close>, and their small letters, 32 code points higher.
\<close>

definition latin1_uppers :: string where
  "latin1_uppers =
     [CHR 0xC0, CHR 0xC1, CHR 0xC2, CHR 0xC3, CHR 0xC4, CHR 0xC5, CHR 0xC6, CHR 0xC7,
      CHR 0xC8, CHR 0xC9, CHR 0xCA, CHR 0xCB, CHR 0xCC, CHR 0xCD, CHR 0xCE, CHR 0xCF,
      CHR 0xD0, CHR 0xD1, CHR 0xD2, CHR 0xD3, CHR 0xD4, CHR 0xD5, CHR 0xD6,
      CHR 0xD8, CHR 0xD9, CHR 0xDA, CHR 0xDB, CHR 0xDC, CHR 0xDD, CHR 0xDE]"

definition latin1_lowers :: string where
  "latin1_lowers =
     [CHR 0xE0, CHR 0xE1, CHR 0xE2, CHR 0xE3, CHR 0xE4, CHR 0xE5, CHR 0xE6, CHR 0xE7,
      CHR 0xE8, CHR 0xE9, CHR 0xEA, CHR 0xEB, CHR 0xEC, CHR 0xED, CHR 0xEE, CHR 0xEF,
      CHR 0xF0, CHR 0xF1, CHR 0xF2, CHR 0xF3, CHR 0xF4, CHR 0xF5, CHR 0xF6,
      CHR 0xF8, CHR 0xF9, CHR 0xFA, CHR 0xFB, CHR 0xFC, CHR 0xFD, CHR 0xFE]"

text \<open>
  The other letters and digits of the Latin-1 supplement: the two ordinal indicators,
  the superscripts 1 to 3, the micro sign, the three fractions, the sharp s and the y
  with diaeresis.
\<close>

definition latin1_others :: string where
  "latin1_others =
     [CHR 0xAA, CHR 0xB2, CHR 0xB3, CHR 0xB5, CHR 0xB9, CHR 0xBA, CHR 0xBC, CHR 0xBD,
      CHR 0xBE, CHR 0xDF, CHR 0xFF]"

text \<open>\<^verbatim>\<open>[a-zA-Z0-9]\<close> of the \<^verbatim>\<open>re\<close> module: the letters and digits of ASCII.\<close>

definition is_alnum :: "char \<Rightarrow> bool" where
  "is_alnum c = (c \<in> set digits \<or> c \<in> set lowers \<or> c \<in> set uppers)"

text \<open>\<^verbatim>\<open>str.isalnum\<close> of one character: the letters and digits of Unicode.\<close>

definition is_unicode_alnum :: "char \<Rightarrow> bool" where
  "is_unicode_alnum c =
     (is_alnum c \<or> c \<in> set latin1_uppers \<or> c \<in> set latin1_lowers \<or> c \<in> set latin1_others)"

text \<open>
  Whitespace as \<^verbatim>\<open>str.split\<close>, \<^verbatim>\<open>str.strip\<close> and the \<^verbatim>\<open>\s\<close> of a \<^verbatim>\<open>str\<close> pattern see
  it: tab, line feed, vertical tab, form feed, carriage return, the four separators
  \<^verbatim>\<open>0x1c\<close> to \<^verbatim>\<open>0x1f\<close>, the space, the next-line control \<^verbatim>\<open>0x85\<close> and the no-break
  space \<^verbatim>\<open>0xa0\<close>.
\<close>

definition is_space :: "char \<Rightarrow> bool" where
  "is_space c =
     (c \<in> set [CHR 0x09, CHR 0x0A, CHR 0x0B, CHR 0x0C, CHR 0x0D,
                CHR 0x1C, CHR 0x1D, CHR 0x1E, CHR 0x1F, CHR 0x20, CHR 0x85, CHR 0xA0])"

text \<open>\<^verbatim>\<open>c.lower()\<close>: a capital letter becomes its small letter, any other character stays.\<close>

definition lower_char :: "char \<Rightarrow> char" where
  "lower_char c =
     (case map_of (zip (uppers @ latin1_uppers) (lowers @ latin1_lowers)) c of
        Some l \<Rightarrow> l
      | None \<Rightarrow> c)"

text \<open>\<^verbatim>\<open>s.lower()\<close>\<close>

definition py_lower :: "string \<Rightarrow> string" where
  "py_lower s = map lower_char s"

text \<open>\<^verbatim>\<open>s.isalnum()\<close>: false on the empty string.\<close>

definition py_isalnum :: "string \<Rightarrow> bool" where
  "py_isalnum s = (s \<noteq> [] \<and> list_all is_unicode_alnum s)"

text \<open>\<^verbatim>\<open>s.strip()\<close>\<close>

definition py_strip :: "string \<Rightarrow> string" where
  "py_strip s = rev (dropWhile is_space (rev (dropWhile is_space s)))"

text \<open>If \<open>s\<close> starts with \<open>p\<close>, what follows \<open>p\<close>.\<close>

fun strip_prefix :: "string \<Rightarrow> string \<Rightarrow> string option" where
  "strip_prefix [] s = Some s"
| "strip_prefix (p # ps) [] = None"
| "strip_prefix (p # ps) (c # cs) = (if p = c then strip_prefix ps cs else None)"

text \<open>
  \<^verbatim>\<open>s.partition(sep)\<close> at the first (leftmost) occurrence of a non-empty \<open>sep\<close>:
  the text before it and the text after it, or \<open>None\<close> when \<open>sep\<close> does not occur.
\<close>

fun py_partition :: "string \<Rightarrow> string \<Rightarrow> (string \<times> string) option" where
  "py_partition sep [] = None"
| "py_partition sep (c # cs) =
     (case strip_prefix sep (c # cs) of
        Some rest \<Rightarrow> Some ([], rest)
      | None \<Rightarrow> map_option (\<lambda>(a, b). (c # a, b)) (py_partition sep cs))"

text \<open>\<^verbatim>\<open>s.split(sep, 1)\<close> for a non-empty \<open>sep\<close>: a list of one or two strings.\<close>

definition py_split1 :: "string \<Rightarrow> string \<Rightarrow> string list" where
  "py_split1 sep s = (case py_partition sep s of None \<Rightarrow> [s] | Some (a, b) \<Rightarrow> [a, b])"

text \<open>\<^verbatim>\<open>sep in s\<close> for a non-empty \<open>sep\<close>.\<close>

definition py_contains :: "string \<Rightarrow> string \<Rightarrow> bool" where
  "py_contains sep s = (py_partition sep s \<noteq> None)"

text \<open>
  \<^verbatim>\<open>s.split()\<close>: the maximal runs of non-whitespace characters, in order. The first
  argument is the run being read.
\<close>

fun split_ws :: "string \<Rightarrow> string \<Rightarrow> string list" where
  "split_ws w [] = (if w = [] then [] else [w])"
| "split_ws w (c # cs) =
     (if is_space c then (if w = [] then split_ws [] cs else w # split_ws [] cs)
      else split_ws (w @ [c]) cs)"

definition py_split :: "string \<Rightarrow> string list" where
  "py_split s = split_ws [] s"

text \<open>\<^verbatim>\<open>sep.join(xs)\<close>\<close>

fun py_join :: "string \<Rightarrow> string list \<Rightarrow> string" where
  "py_join sep [] = []"
| "py_join sep [x] = x"
| "py_join sep (x # y # ys) = x @ sep @ py_join sep (y # ys)"

text \<open>\<^verbatim>\<open>str(n)\<close> of a non-negative integer.\<close>

fun str_of_nat :: "nat \<Rightarrow> string" where
  "str_of_nat n =
     (if n < 10 then [digits ! n] else str_of_nat (n div 10) @ [digits ! (n mod 10)])"

subsection \<open>Exceptions\<close>

text \<open>
  The text of an \<^verbatim>\<open>AssertionError\<close>. The f-strings of the source are kept as the
  fixed text and the value formatted into it.
\<close>

datatype assert_msg =
    No_message
  | No_products_found_for string
  | No_contents_json_found_for string
  | Missing_header_for "string \<Rightarrow> string option"

datatype error =
    HTTPError
  | AssertionError assert_msg
  | ValueError
  | JSONDecodeError
  | KeyError
  | IndexError
  | TypeError
  | AttributeError
  | RequestException
  | InvalidURL
  | OSError

section \<open>The name exception table\<close>

definition NAME_EXCEPTIONS :: "string \<Rightarrow> string option" where
  "NAME_EXCEPTIONS =
     [''hackerbox-0095-ai-camera-lab'' \<mapsto> ''hackerbox-0095-ai-camera'',
      ''hackerbox-0050-fifty'' \<mapsto> ''hackerbox-0050'',
      ''hackerbox-0039-level-up'' \<mapsto> ''hackerbox-0039-power-up'',
      ''hackerbox-0022-bbc-microbit'' \<mapsto> ''hackerbox-0022-bbc-micro-bit'']"

section \<open>The name normalizer: the loop body of \<^verbatim>\<open>parse_box_names\<close>\<close>

text \<open>\<^verbatim>\<open>re.sub(r'[^a-zA-Z0-9\s-]', '', raw_name)\<close>\<close>

definition sub_non_slug_chars :: "string \<Rightarrow> string" where
  "sub_non_slug_chars s = filter (\<lambda>c. is_alnum c \<or> is_space c \<or> c = CHR ''-'') s"

text \<open>
  Lines 46 to 51: from the text after the number to the hyphen-joined lower-case name.
\<close>

definition slug_of_raw_name :: "string \<Rightarrow> string" where
  "slug_of_raw_name raw_name0 =
     (let raw_name1 = (if py_contains '' - '' raw_name0
                       then hd (py_split1 '' - '' raw_name0) else raw_name0);
          raw_name2 = (if \<not> py_isalnum raw_name1
                       then sub_non_slug_chars raw_name1 else raw_name1)
      in py_lower (py_join ''-'' (py_split raw_name2)))"

text \<open>
  Lines 42 to 54, given \<^verbatim>\<open>product['variants'][0]['name']\<close> as a string. The tuple
  assignment of line 43 raises \<^verbatim>\<open>ValueError\<close> when the split yields one string only.
\<close>

definition normalize_name :: "string \<Rightarrow> error + string" where
  "normalize_name label =
     (let raw_product = drop 11 label in
      case py_split1 '' - '' raw_product of
        [number0, raw_name] \<Rightarrow>
          (let number = py_strip number0;
               name = slug_of_raw_name raw_name;
               full_name = ''hackerbox-'' @ number @ ''-'' @ name
           in case NAME_EXCEPTIONS full_name of
                Some mapped \<Rightarrow> Inr mapped
              | None \<Rightarrow> Inr full_name)
      | _ \<Rightarrow> Inl ValueError)"

section \<open>JSON values and the Python operations applied to them\<close>

text \<open>
  What \<^verbatim>\<open>json.loads\<close> returns. An object is its list of members, each key once (a
  Python \<^verbatim>\<open>dict\<close>). JSON numbers are integers here: no number is computed with.
\<close>

datatype json =
    JNull
  | JBool bool
  | JNum int
  | JStr string
  | JArr "json list"
  | JObj "(string \<times> json) list"

text \<open>Running one statement after another: the first exception ends the function.\<close>

definition and_then :: "error + 'a \<Rightarrow> ('a \<Rightarrow> error + 'b) \<Rightarrow> error + 'b" where
  "and_then r f = (case r of Inl e \<Rightarrow> Inl e | Inr x \<Rightarrow> f x)"

text \<open>Truth value, as \<^verbatim>\<open>assert v\<close> tests it.\<close>

fun truthy :: "json \<Rightarrow> bool" where
  "truthy JNull = False"
| "truthy (JBool b) = b"
| "truthy (JNum n) = (n \<noteq> 0)"
| "truthy (JStr s) = (s \<noteq> [])"
| "truthy (JArr xs) = (xs \<noteq> [])"
| "truthy (JObj kvs) = (kvs \<noteq> [])"

text \<open>\<^verbatim>\<open>v[k]\<close> for a string \<open>k\<close>.\<close>

fun subscript_key :: "json \<Rightarrow> string \<Rightarrow> error + json" where
  "subscript_key (JObj kvs) k = (case map_of kvs k of Some v \<Rightarrow> Inr v | None \<Rightarrow> Inl KeyError)"
| "subscript_key v k = Inl TypeError"

text \<open>\<^verbatim>\<open>v[0]\<close>\<close>

fun subscript_0 :: "json \<Rightarrow> error + json" where
  "subscript_0 (JArr xs) = (case xs of [] \<Rightarrow> Inl IndexError | x # _ \<Rightarrow> Inr x)"
| "subscript_0 (JStr s) = (case s of [] \<Rightarrow> Inl IndexError | c # _ \<Rightarrow> Inr (JStr [c]))"
| "subscript_0 (JObj kvs) = Inl KeyError"
| "subscript_0 v = Inl TypeError"

text \<open>
  \<^verbatim>\<open>for x in v\<close>: the elements of a list, the characters of a string, the keys of a
  dict; anything else is not iterable.
\<close>

fun py_iter :: "json \<Rightarrow> error + json list" where
  "py_iter (JArr xs) = Inr xs"
| "py_iter (JStr s) = Inr (map (\<lambda>c. JStr [c]) s)"
| "py_iter (JObj kvs) = Inr (map (\<lambda>kv. JStr (fst kv)) kvs)"
| "py_iter v = Inl TypeError"

section \<open>The web, as the program sees it\<close>

record response =
  status_code :: nat
  resp_text :: string
  content :: string

text \<open>
  The collaborators outside the repository: \<^verbatim>\<open>self.session.get\<close>, \<^verbatim>\<open>requests.get\<close>
  (either may raise instead of returning a response), \<^verbatim>\<open>json.loads\<close>, and
  \<^verbatim>\<open>Path.write_bytes\<close>, given the file name joined to \<^verbatim>\<open>ASSETS\<close> and the bytes, which
  the file system may refuse. What \<^verbatim>\<open>requests.get\<close> is asked for is the text of a URL,
  or \<^verbatim>\<open>https://\<close> followed by a value that is not a string, as Python prints it.
\<close>

datatype url =
    Url string
  | Url_formatted json

record env =
  session_get :: "string \<Rightarrow> error + response"
  requests_get :: "url \<Rightarrow> error + response"
  json_loads :: "string \<Rightarrow> error + json"
  write_bytes :: "string \<Rightarrow> string \<Rightarrow> error + unit"

text \<open>
  \<^verbatim>\<open>Response.raise_for_status\<close> of the requests library: \<^verbatim>\<open>HTTPError\<close> for a status
  from 400 to 599.
\<close>

definition raise_for_status :: "response \<Rightarrow> error + unit" where
  "raise_for_status r =
     (if 400 \<le> status_code r \<and> status_code r < 600 then Inl HTTPError else Inr ())"

section \<open>The two regular expressions searched for in a page\<close>

text \<open>
  A lazy repetition \<^verbatim>\<open>X*?\<close> of one-character matches \<open>p\<close>, followed by the rest of the
  pattern \<open>k\<close>: the backtracking matcher tries the rest after zero characters, then
  after one, and so on, and stops at a character \<open>p\<close> rejects. The result is the text
  the repetition took and what the rest of the pattern returned.
\<close>

fun lazy_star :: "(char \<Rightarrow> bool) \<Rightarrow> (string \<Rightarrow> 'a option) \<Rightarrow> string \<Rightarrow> (string \<times> 'a) option" where
  "lazy_star p k [] = map_option (Pair []) (k [])"
| "lazy_star p k (c # cs) =
     (case k (c # cs) of
        Some r \<Rightarrow> Some ([], r)
      | None \<Rightarrow> if p c then map_option (\<lambda>(m, r). (c # m, r)) (lazy_star p k cs) else None)"

text \<open>\<^verbatim>\<open>X+?\<close>: one character first.\<close>

fun lazy_plus :: "(char \<Rightarrow> bool) \<Rightarrow> (string \<Rightarrow> 'a option) \<Rightarrow> string \<Rightarrow> (string \<times> 'a) option" where
  "lazy_plus p k [] = None"
| "lazy_plus p k (c # cs) =
     (if p c then map_option (\<lambda>(m, r). (c # m, r)) (lazy_star p k cs) else None)"

text \<open>
  \<^verbatim>\<open>\s+\<close> before a character that is not whitespace: the whole run of whitespace, which
  must not be empty (a shorter run would leave whitespace where the next character of
  the pattern is expected).
\<close>

fun spaces1 :: "string \<Rightarrow> string option" where
  "spaces1 [] = None"
| "spaces1 (c # cs) = (if is_space c then Some (dropWhile is_space cs) else None)"

text \<open>\<^verbatim>\<open>re.search\<close>: the match at the leftmost position that has one.\<close>

fun re_search :: "(string \<Rightarrow> 'a option) \<Rightarrow> string \<Rightarrow> 'a option" where
  "re_search m [] = m []"
| "re_search m (c # cs) = (case m (c # cs) of Some r \<Rightarrow> Some r | None \<Rightarrow> re_search m cs)"

text \<open>With \<^verbatim>\<open>re.DOTALL\<close> the dot matches every character.\<close>

definition any_char :: "char \<Rightarrow> bool" where
  "any_char c = True"

text \<open>
  \<^verbatim>\<open>var meta = (?P<products>{"products":.+?});\n\<close> at the start of \<open>s\<close>: the group
  \<^verbatim>\<open>products\<close>, which ends with the first closing brace (after at least one
  character) that \<^verbatim>\<open>;\n\<close> follows.
\<close>

definition meta_match :: "string \<Rightarrow> string option" where
  \<open>meta_match s =
     (case strip_prefix ''var meta = {"products":'' s of
        None \<Rightarrow> None
      | Some s1 \<Rightarrow>
          map_option (\<lambda>(m, r). ''{"products":'' @ m @ ''}'')
            (lazy_plus any_char (strip_prefix ''};\<newline>'') s1))\<close>

text \<open>
  \<^verbatim>\<open>ProductJson-product-template">\s+(?P<product>{.+?})\n\s+</script>\s\<close> at the start of
  \<open>s\<close>: the group \<^verbatim>\<open>product\<close>. First what follows the lazy repetition.
\<close>

definition product_tail :: "string \<Rightarrow> unit option" where
  "product_tail s =
     (case strip_prefix ''}\<newline>'' s of
        None \<Rightarrow> None
      | Some s1 \<Rightarrow>
          (case spaces1 s1 of
             None \<Rightarrow> None
           | Some s2 \<Rightarrow>
               (case strip_prefix ''</script>'' s2 of
                  None \<Rightarrow> None
                | Some s3 \<Rightarrow>
                    (case s3 of [] \<Rightarrow> None | c # _ \<Rightarrow> if is_space c then Some () else None))))"

definition product_match :: "string \<Rightarrow> string option" where
  \<open>product_match s =
     (case strip_prefix ''ProductJson-product-template">'' s of
        None \<Rightarrow> None
      | Some s1 \<Rightarrow>
          (case spaces1 s1 of
             None \<Rightarrow> None
           | Some s2 \<Rightarrow>
               (case strip_prefix ''{'' s2 of
                  None \<Rightarrow> None
                | Some s3 \<Rightarrow>
                    map_option (\<lambda>(m, r). ''{'' @ m @ ''}'')
                      (lazy_plus any_char product_tail s3))))\<close>

section \<open>\<^verbatim>\<open>HackerBoxes.parse_box_names\<close>\<close>

definition hb_url :: string where
  "hb_url = ''https://hackerboxes.com/collections/past-hackerboxes''"

text \<open>
  Line 42 and what follows for one product. A name that is a list is sliced and has no
  \<^verbatim>\<open>split\<close>; no other value can be sliced (a dict raises \<^verbatim>\<open>TypeError\<close> up to
  Python 3.11).
\<close>

definition product_name :: "json \<Rightarrow> error + string" where
  "product_name product =
     and_then (subscript_key product ''variants'') (\<lambda>variants.
     and_then (subscript_0 variants) (\<lambda>variant.
     and_then (subscript_key variant ''name'') (\<lambda>name.
       case name of
         JStr label \<Rightarrow> normalize_name label
       | JArr xs \<Rightarrow> Inl AttributeError
       | _ \<Rightarrow> Inl TypeError)))"

text \<open>The loop of lines 41 to 55.\<close>

fun product_names :: "json list \<Rightarrow> error + string list" where
  "product_names [] = Inr []"
| "product_names (product # rest) =
     and_then (product_name product) (\<lambda>full_name.
     and_then (product_names rest) (\<lambda>names. Inr (full_name # names)))"

definition parse_box_names :: "env \<Rightarrow> string \<Rightarrow> error + string list" where
  "parse_box_names e url =
     and_then (session_get e url) (\<lambda>response.
     and_then (raise_for_status response) (\<lambda>_.
       case re_search meta_match (resp_text response) of
         None \<Rightarrow> Inl (AssertionError (No_products_found_for url))
       | Some products_group \<Rightarrow>
           and_then (json_loads e products_group) (\<lambda>meta.
           and_then (subscript_key meta ''products'') (\<lambda>products.
             if \<not> truthy products then Inl (AssertionError No_message)
             else and_then (py_iter products) product_names))))"

section \<open>\<^verbatim>\<open>HackerBoxes.get_all_boxes\<close>\<close>

text \<open>\<^verbatim>\<open>except (requests.HTTPError, AssertionError)\<close>\<close>

fun ends_pagination :: "error \<Rightarrow> bool" where
  "ends_pagination HTTPError = True"
| "ends_pagination (AssertionError m) = True"
| "ends_pagination e = False"

definition page_url :: "nat \<Rightarrow> string" where
  "page_url i = hb_url @ ''?page='' @ str_of_nat i"

text \<open>
  The \<^verbatim>\<open>while True\<close> loop, from page \<open>i\<close> with \<open>boxes\<close> collected so far. It has no bound:
  on a site whose every page lists products it does not return, which is the value
  \<open>None\<close>.
\<close>

partial_function (option) walk_pages :: "env \<Rightarrow> nat \<Rightarrow> string list \<Rightarrow> (error + string list) option" where
  "walk_pages e i boxes =
     (case parse_box_names e (page_url i) of
        Inr names \<Rightarrow> walk_pages e (Suc i) (boxes @ names)
      | Inl err \<Rightarrow> if ends_pagination err then Some (Inr boxes) else Some (Inl err))"

definition get_all_boxes :: "env \<Rightarrow> (error + string list) option" where
  "get_all_boxes e =
     (case parse_box_names e hb_url of
        Inl err \<Rightarrow> Some (Inl err)
      | Inr boxes \<Rightarrow> walk_pages e 2 boxes)"

section \<open>\<^verbatim>\<open>HackerBoxes.get_box_contents\<close>\<close>

text \<open>Without \<^verbatim>\<open>re.DOTALL\<close> the dot matches every character but the line feed.\<close>

definition not_newline :: "char \<Rightarrow> bool" where
  "not_newline c = (c \<noteq> CHR 0x0A)"

definition backslash :: char where
  "backslash = CHR 0x5C"

text \<open>
  \<^verbatim>\<open><\\?/li>\n\<close>, the end of the pattern of line 83: the optional backslash is tried
  first, then its absence.
\<close>

definition li_close :: "string \<Rightarrow> string option" where
  "li_close s =
     (case strip_prefix ''<'' s of
        None \<Rightarrow> None
      | Some s1 \<Rightarrow>
          (case (case strip_prefix [backslash] s1 of
                   None \<Rightarrow> None
                 | Some s2 \<Rightarrow> strip_prefix ''/li>\<newline>'' s2) of
             Some rest \<Rightarrow> Some rest
           | None \<Rightarrow> strip_prefix ''/li>\<newline>'' s1))"

text \<open>
  \<^verbatim>\<open>\n<li.*?>(.+?)<\\?/li>\n\<close> at the start of \<open>s\<close>: group 1 and the text after the
  match.
\<close>

definition li_match :: "string \<Rightarrow> (string \<times> string) option" where
  "li_match s =
     (case strip_prefix ''\<newline><li'' s of
        None \<Rightarrow> None
      | Some s1 \<Rightarrow>
          map_option snd
            (lazy_star not_newline
               (\<lambda>s2. case strip_prefix ''>'' s2 of
                       None \<Rightarrow> None
                     | Some s3 \<Rightarrow> lazy_plus not_newline li_close s3)
               s1))"

lemma strip_prefix_Some: "strip_prefix p s = Some r \<longleftrightarrow> s = p @ r"
  by (induction p s rule: strip_prefix.induct) auto

lemma lazy_star_rest:
  assumes "lazy_star p k s = Some (m, x)"
    and "\<And>t y. k t = Some y \<Longrightarrow> length (f y) \<le> length t"
  shows "length (f x) \<le> length s"
  using assms(1)
proof (induction s arbitrary: m)
  case Nil
  then show ?case using assms(2) [of "[]" x] by auto
next
  case (Cons c cs)
  show ?case
  proof (cases "k (c # cs)")
    case (Some y)
    with Cons.prems have "y = x" by simp
    with Some assms(2) show ?thesis by blast
  next
    case None
    with Cons.prems obtain m' where "lazy_star p k cs = Some (m', x)"
      by (auto split: if_splits)
    from Cons.IH [OF this] show ?thesis by simp
  qed
qed

lemma lazy_plus_rest:
  assumes "lazy_plus p k s = Some (m, x)"
    and "\<And>t y. k t = Some y \<Longrightarrow> length (f y) \<le> length t"
  shows "length (f x) < length s"
proof (cases s)
  case Nil
  with assms(1) show ?thesis by simp
next
  case (Cons c cs)
  with assms(1) obtain m' where "lazy_star p k cs = Some (m', x)"
    by (auto split: if_splits)
  then have "length (f x) \<le> length cs"
    by (rule lazy_star_rest [where f = f]) (rule assms(2))
  with Cons show ?thesis by simp
qed

lemma li_close_rest: "li_close t = Some r \<Longrightarrow> length r \<le> length t"
  by (auto simp: li_close_def strip_prefix_Some split: option.splits)

lemma li_match_rest:
  assumes "li_match s = Some (b, rest)"
  shows "length rest < length s"
proof -
  let ?k = "\<lambda>s2. case strip_prefix ''>'' s2 of
                    None \<Rightarrow> None
                  | Some s3 \<Rightarrow> lazy_plus not_newline li_close s3"
  from assms obtain s1 m where s1: "s = ''\<newline><li'' @ s1"
    and star: "lazy_star not_newline ?k s1 = Some (m, (b, rest))"
    by (auto simp: li_match_def strip_prefix_Some split: option.splits)
  have "length (snd y) \<le> length t" if "?k t = Some y" for t y
  proof -
    from that obtain s3 where "t = ''>'' @ s3"
      and "lazy_plus not_newline li_close s3 = Some (fst y, snd y)"
      by (auto simp: strip_prefix_Some split: option.splits)
    with lazy_plus_rest [where f = "\<lambda>r. r", of not_newline li_close s3 "fst y" "snd y"]
      li_close_rest
    show ?thesis by simp
  qed
  with star have "length (snd (b, rest)) \<le> length s1"
    by (rule lazy_star_rest [where f = snd])
  then have "length rest \<le> length s1"
    by simp
  with s1 show ?thesis by simp
qed

text \<open>
  \<^verbatim>\<open>re.findall\<close> with the pattern of line 83: group 1 of every match, scanning from left
  to right; after a match the scan goes on where the match ended.
\<close>

function findall_li :: "string \<Rightarrow> string list" where
  "findall_li [] = []"
| "findall_li (c # cs) =
     (case li_match (c # cs) of
        Some (b, rest) \<Rightarrow> b # findall_li rest
      | None \<Rightarrow> findall_li cs)"
  by pat_completeness auto
termination
  by (relation "measure length") (auto dest: li_match_rest)

text \<open>Line 83 on the value of \<^verbatim>\<open>product['description']\<close>: only a string can be searched.\<close>

fun description_items :: "json \<Rightarrow> error + string list" where
  "description_items (JStr d) = Inr (findall_li d)"
| "description_items v = Inl TypeError"

text \<open>
  \<^verbatim>\<open>product['featured_image'][2:]\<close>: a string and a list can be sliced, no other value
  (a dict raises \<^verbatim>\<open>TypeError\<close> up to Python 3.11).
\<close>

fun slice_from_2 :: "json \<Rightarrow> error + json" where
  "slice_from_2 (JStr s) = Inr (JStr (drop 2 s))"
| "slice_from_2 (JArr xs) = Inr (JArr (drop 2 xs))"
| "slice_from_2 v = Inl TypeError"

text \<open>
  The f-string \<^verbatim>\<open>f'https://{image_url}'\<close> of line 85. A string goes into it as it is;
  of another value Python prints its \<^verbatim>\<open>str\<close>, which is not computed here: the value is
  kept, and \<^verbatim>\<open>requests.get\<close> is asked for it.
\<close>

fun https_url :: "json \<Rightarrow> url" where
  "https_url (JStr s) = Url (''https://'' @ s)"
| "https_url v = Url_formatted v"

text \<open>\<^verbatim>\<open>Path.name\<close> of a path whose last component is not empty: the text after the last slash.\<close>

definition path_name :: "string \<Rightarrow> string" where
  "path_name p = rev (takeWhile (\<lambda>c. c \<noteq> CHR ''/'') (rev p))"

record json_row =
  json_name :: string
  json_picture :: string
  json_contents :: "string list"

text \<open>The files written so far: the name joined to \<^verbatim>\<open>ASSETS\<close>, and the bytes.\<close>

type_synonym assets = "(string \<times> string) list"

text \<open>
  The table row is the dict of line 96, a map from its three keys. The \<^verbatim>\<open>print\<close> of
  line 89 is left out: nothing below observes the standard output.
\<close>

definition get_box_contents ::
  "env \<Rightarrow> assets \<Rightarrow> string \<Rightarrow> error + (((string \<Rightarrow> string option) \<times> json_row) \<times> assets)" where
  "get_box_contents e written name =
     (let box_url = hb_url @ ''/products/'' @ name in
      and_then (session_get e box_url) (\<lambda>response.
        case re_search product_match (resp_text response) of
          None \<Rightarrow> Inl (AssertionError (No_contents_json_found_for name))
        | Some product_group \<Rightarrow>
            and_then (json_loads e product_group) (\<lambda>product.
            and_then (subscript_key product ''description'') (\<lambda>description.
              if \<not> truthy description then Inl (AssertionError No_message)
              else
                and_then (description_items description) (\<lambda>contents.
                and_then (subscript_key product ''featured_image'') (\<lambda>featured_image.
                and_then (slice_from_2 featured_image) (\<lambda>image_url.
                and_then (requests_get e (https_url image_url)) (\<lambda>image_response.
                  let image = content image_response;
                      image_path = name @ ''.png''
                  in
                and_then (write_bytes e image_path image) (\<lambda>_.
                  let bullets = map (\<lambda>b. ''<li>'' @ b @ ''</li>'') contents;
                      table_contents = ''<ul>'' @ concat bullets @ ''</ul>'';
                      table_name = ''['' @ name @ '']('' @ box_url @ '')'';
                      picture = ''!['' @ name @ ''](assets/'' @ path_name image_path @ '')'';
                      table_data = [''name'' \<mapsto> table_name, ''picture'' \<mapsto> picture,
                                    ''contents'' \<mapsto> table_contents];
                      json_data = \<lparr>json_name = name, json_picture = picture,
                                    json_contents = contents\<rparr>
                  in Inr ((table_data, json_data), written @ [(image_path, image)]))))))))))"

section \<open>\<^verbatim>\<open>MarkdownTable\<close>\<close>

record markdown_table =
  headers :: "string list"
  rows :: "(string \<Rightarrow> string option) list"

text \<open>The loop of \<^verbatim>\<open>__init__\<close>: the first row that lacks a header fails the assertion.\<close>

fun check_rows :: "string list \<Rightarrow> (string \<Rightarrow> string option) list \<Rightarrow> error + unit" where
  "check_rows hs [] = Inr ()"
| "check_rows hs (row # rest) =
     (if list_all (\<lambda>h. row h \<noteq> None) hs then check_rows hs rest
      else Inl (AssertionError (Missing_header_for row)))"

definition MarkdownTable ::
  "string list \<Rightarrow> (string \<Rightarrow> string option) list \<Rightarrow> error + markdown_table" where
  "MarkdownTable hs rs = and_then (check_rows hs rs) (\<lambda>_. Inr \<lparr>headers = hs, rows = rs\<rparr>)"

definition make_headers :: "markdown_table \<Rightarrow> string" where
  "make_headers t =
     (let header = ''| '' @ py_strip (py_join '' | '' (headers t)) @ '' |\<newline>'';
          column_lengths = map (\<lambda>h. length h + 2) (headers t)
      in header @ ''| '' @ py_join '' | '' (map (\<lambda>cl. replicate cl CHR ''-'') column_lengths)
           @ '' |\<newline>'')"

text \<open>\<^verbatim>\<open>[row[h] for h in self.headers]\<close>: a missing key raises \<^verbatim>\<open>KeyError\<close>.\<close>

fun row_cells :: "(string \<Rightarrow> string option) \<Rightarrow> string list \<Rightarrow> error + string list" where
  "row_cells row [] = Inr []"
| "row_cells row (h # hs) =
     (case row h of
        None \<Rightarrow> Inl KeyError
      | Some v \<Rightarrow> and_then (row_cells row hs) (\<lambda>vs. Inr (v # vs)))"

fun all_cells :: "string list \<Rightarrow> (string \<Rightarrow> string option) list \<Rightarrow> error + string list list" where
  "all_cells hs [] = Inr []"
| "all_cells hs (row # rest) =
     and_then (row_cells row hs) (\<lambda>vs.
     and_then (all_cells hs rest) (\<lambda>vss. Inr (vs # vss)))"

definition make_rows :: "markdown_table \<Rightarrow> error + string" where
  "make_rows t =
     and_then (all_cells (headers t) (rows t)) (\<lambda>cells.
       Inr (concat (map (\<lambda>row. ''| '' @ py_join '' | '' row @ '' |\<newline>'') cells)))"

definition generate :: "markdown_table \<Rightarrow> error + string" where
  "generate t =
     (let generated = make_headers t
      in and_then (make_rows t) (\<lambda>all_rows. Inr (generated @ all_rows)))"

text \<open>Lines 146 and 147: the table is built, then rendered.\<close>

definition table_text :: "string list \<Rightarrow> (string \<Rightarrow> string option) list \<Rightarrow> error + string" where
  "table_text hs rs = and_then (MarkdownTable hs rs) generate"

section \<open>The vocabulary of the properties\<close>

subsection \<open>The slug pattern\<close>

text \<open>
  A whole string against \<^verbatim>\<open>[a-z0-9]+(-[a-z0-9]+)*\<close>, read from left to right: the flag
  says whether the character before was one of \<^verbatim>\<open>[a-z0-9]\<close>, so that a hyphen may follow
  and the string may end.
\<close>

definition is_slug_char :: "char \<Rightarrow> bool" where
  "is_slug_char c = (c \<in> set digits \<or> c \<in> set lowers)"

fun slug_re_from :: "bool \<Rightarrow> string \<Rightarrow> bool" where
  "slug_re_from in_run [] = in_run"
| "slug_re_from in_run (c # cs) =
     (if is_slug_char c then slug_re_from True cs
      else if c = CHR ''-'' \<and> in_run then slug_re_from False cs
      else False)"

definition matches_slug_re :: "string \<Rightarrow> bool" where
  "matches_slug_re s = slug_re_from False s"

text \<open>
  Every hyphen of a string stands directly between two of \<^verbatim>\<open>[a-zA-Z0-9]\<close>. The flag says
  whether the character before was one of them.
\<close>

fun hyphens_from :: "bool \<Rightarrow> string \<Rightarrow> bool" where
  "hyphens_from after_alnum [] = True"
| "hyphens_from after_alnum (c # cs) =
     (if c = CHR ''-''
      then after_alnum \<and> (case cs of [] \<Rightarrow> False | d # _ \<Rightarrow> is_alnum d) \<and> hyphens_from False cs
      else hyphens_from (is_alnum c) cs)"

definition hyphens_between_alnum :: "string \<Rightarrow> bool" where
  "hyphens_between_alnum s = hyphens_from False s"

subsection \<open>Taking the wrappers off the contents of a table row\<close>

definition strip_suffix :: "string \<Rightarrow> string \<Rightarrow> string option" where
  "strip_suffix p s = map_option rev (strip_prefix (rev p) (rev s))"

lemma py_partition_Some:
  "py_partition sep s = Some (a, b) \<Longrightarrow> s = a @ sep @ b"
  by (induction s arbitrary: a) (auto simp: strip_prefix_Some split: option.splits)

lemma py_partition_rest:
  "py_partition sep s = Some (a, b) \<Longrightarrow> length b \<le> length s"
  by (drule py_partition_Some) simp

text \<open>
  The items of \<^verbatim>\<open><li>a</li><li>b</li>...\<close>: after each \<^verbatim>\<open><li>\<close> the item runs to the next
  \<^verbatim>\<open></li>\<close>. \<open>None\<close> when the text is not of that form.
\<close>

function strip_li_items :: "string \<Rightarrow> string list option" where
  "strip_li_items [] = Some []"
| "strip_li_items (c # cs) =
     (case strip_prefix ''<li>'' (c # cs) of
        None \<Rightarrow> None
      | Some s1 \<Rightarrow>
          (case py_partition ''</li>'' s1 of
             None \<Rightarrow> None
           | Some (b, rest) \<Rightarrow> map_option ((#) b) (strip_li_items rest)))"
  by pat_completeness auto
termination
proof (relation "measure length")
  fix c cs s1 x b rest
  assume "strip_prefix ''<li>'' (c # cs) = Some s1" and "py_partition ''</li>'' s1 = Some x"
    and "(b, rest) = x"
  then have "c # cs = ''<li>'' @ s1" and "length rest \<le> length s1"
    by (simp_all only: strip_prefix_Some py_partition_rest [of "''</li>''" s1 b rest])
  then have "length rest < length (c # cs)"
    by (metis append_Cons append_Nil le_imp_less_Suc length_Cons less_SucI)
  then show "(rest, c # cs) \<in> measure length"
    by simp
qed simp

text \<open>The one outer \<^verbatim>\<open><ul>\<close> ... \<^verbatim>\<open></ul>\<close> taken off, then the \<^verbatim>\<open><li>\<close> ... \<^verbatim>\<open></li>\<close> of each item.\<close>

definition strip_wrapping :: "string \<Rightarrow> string list option" where
  "strip_wrapping t =
     (case strip_prefix ''<ul>'' t of
        None \<Rightarrow> None
      | Some t1 \<Rightarrow>
          (case strip_suffix ''</ul>'' t1 of
             None \<Rightarrow> None
           | Some body \<Rightarrow> strip_li_items body))"

definition wrap_li :: "string list \<Rightarrow> string" where
  "wrap_li bs = concat (map (\<lambda>b. ''<li>'' @ b @ ''</li>'') bs)"

subsection \<open>Descriptions whose items stand on lines of their own\<close>

definition newline :: char where
  "newline = CHR 0x0A"







section \<open>Example sites\<close>

text \<open>
  Concrete pages on which the definitions above are evaluated. The table \<open>docs\<close> lists
  the JSON documents the site serves, each with the value \<^verbatim>\<open>json.loads\<close> returns for it;
  any other text is not JSON. A URL the site does not know is answered with status 404,
  and what is not the text of a URL is refused by \<^verbatim>\<open>requests.get\<close>.
\<close>

definition not_found :: response where
  "not_found = \<lparr>status_code = 404, resp_text = ''Not Found'', content = ''Not Found''\<rparr>"

definition fetch :: "(string \<times> response) list \<Rightarrow> string \<Rightarrow> error + response" where
  "fetch pages url = (case map_of pages url of Some r \<Rightarrow> Inr r | None \<Rightarrow> Inr not_found)"

definition site :: "(string \<times> response) list \<Rightarrow> (string \<times> json) list \<Rightarrow> env" where
  "site pages docs =
     \<lparr>session_get = fetch pages,
      requests_get = (\<lambda>u. case u of Url s \<Rightarrow> fetch pages s | Url_formatted v \<Rightarrow> Inl InvalidURL),
      json_loads = (\<lambda>s. case map_of docs s of Some v \<Rightarrow> Inr v | None \<Rightarrow> Inl JSONDecodeError),
      write_bytes = (\<lambda>path bytes. Inr ())\<rparr>"

definition listing_page :: "string \<Rightarrow> response" where
  "listing_page products_group =
     \<lparr>status_code = 200,
      resp_text = ''<script>var meta = '' @ products_group @ '';\<newline></script>'',
      content = []\<rparr>"

text \<open>A listing of one product, as JSON text and as the value it denotes.\<close>

definition meta_of_label :: "string \<Rightarrow> string" where
  \<open>meta_of_label label = ''{"products":[{"variants":[{"name":"'' @ label @ ''"}]}]}''\<close>

definition json_of_label :: "string \<Rightarrow> json" where
  "json_of_label label =
     JObj [(''products'', JArr [JObj [(''variants'', JArr [JObj [(''name'', JStr label)]])]])]"

definition label_41 :: string where
  "label_41 = ''HackerBox #0041 - Circuit Breaker''"

definition label_95 :: string where
  "label_95 = ''HackerBox #0095 - AI Camera Lab - Build a Vision System''"

definition listing_docs :: "(string \<times> json) list" where
  "listing_docs = map (\<lambda>l. (meta_of_label l, json_of_label l)) [label_41, label_95]"

text \<open>Two pages of one box each; there is no page 3.\<close>

definition two_pages :: env where
  "two_pages =
     site [(hb_url, listing_page (meta_of_label label_41)),
           (hb_url @ ''?page=2'', listing_page (meta_of_label label_95))]
          listing_docs"

text \<open>A site that is down: every URL is answered with status 404.\<close>

definition site_down :: env where
  "site_down = site [] []"

text \<open>One page of boxes; the second page is served, and lists nothing.\<close>

definition one_page :: env where
  "one_page =
     site [(hb_url, listing_page (meta_of_label label_41)),
           (hb_url @ ''?page=2'',
            \<lparr>status_code = 200, resp_text = ''<html></html>'', content = []\<rparr>)]
          listing_docs"

text \<open>
  The detail page of a box, answered with the given status. In the page the line feeds
  of the description are the JSON escape \<^verbatim>\<open>\n\<close>, written out by \<open>escaped_nl\<close>.
\<close>

definition detail_page :: "nat \<Rightarrow> string \<Rightarrow> response" where
  \<open>detail_page status product_group =
     \<lparr>status_code = status,
      resp_text =
        ''<script type="application/json" id="ProductJson-product-template">\<newline>    ''
        @ product_group @ ''\<newline>  </script>\<newline>'',
      content = []\<rparr>\<close>

definition escaped_nl :: string where
  "escaped_nl = [backslash, CHR ''n'']"

definition product_text :: "string \<Rightarrow> string" where
  \<open>product_text description =
     ''{"description":"'' @ description @ ''","featured_image":"//cdn.example.com/0041.png"}''\<close>

definition product_json :: "string \<Rightarrow> json" where
  "product_json description =
     JObj [(''description'', JStr description),
           (''featured_image'', JStr ''//cdn.example.com/0041.png'')]"

definition box_41 :: string where
  "box_41 = ''hackerbox-0041-circuit-breaker''"

definition box_41_url :: string where
  "box_41_url = hb_url @ ''/products/'' @ box_41"

text \<open>A description with one item on a line of its own.\<close>

definition esp32_text :: string where
  "esp32_text = product_text (''<ul>'' @ escaped_nl @ ''<li>ESP32</li>'' @ escaped_nl @ ''</ul>'')"

definition esp32_json :: json where
  "esp32_json = product_json ''<ul>\<newline><li>ESP32</li>\<newline></ul>''"

text \<open>The detail page and the image are served.\<close>

definition box_served :: env where
  "box_served =
     site [(box_41_url, detail_page 200 esp32_text),
           (''https://cdn.example.com/0041.png'',
            \<lparr>status_code = 200, resp_text = ''PNG'', content = ''PNG''\<rparr>)]
          [(esp32_text, esp32_json)]"

text \<open>The detail page is served; the image it names is not.\<close>

definition image_missing :: env where
  "image_missing = site [(box_41_url, detail_page 200 esp32_text)] [(esp32_text, esp32_json)]"

text \<open>The server answers the detail page with status 500, and sends the page all the same.\<close>

definition detail_500 :: env where
  "detail_500 =
     site [(box_41_url, detail_page 500 esp32_text),
           (''https://cdn.example.com/0041.png'',
            \<lparr>status_code = 200, resp_text = ''PNG'', content = ''PNG''\<rparr>)]
          [(esp32_text, esp32_json)]"

text \<open>A description with two items on one line.\<close>

definition one_line_text :: string where
  "one_line_text = product_text (escaped_nl @ ''<li>a</li><li>b</li>'' @ escaped_nl)"

definition one_line_json :: json where
  "one_line_json = product_json ''\<newline><li>a</li><li>b</li>\<newline>''"

definition one_line_box :: env where
  "one_line_box =
     site [(box_41_url, detail_page 200 one_line_text),
           (''https://cdn.example.com/0041.png'',
            \<lparr>status_code = 200, resp_text = ''PNG'', content = ''PNG''\<rparr>)]
          [(one_line_text, one_line_json)]"

section \<open>Properties\<close>

lemmas char_defs = is_alnum_def is_unicode_alnum_def is_space_def lower_char_def digits_def
  lowers_def uppers_def latin1_uppers_def latin1_lowers_def latin1_others_def

lemmas normalize_defs = normalize_name_def py_split1_def slug_of_raw_name_def py_contains_def
  py_isalnum_def sub_non_slug_chars_def py_lower_def py_split_def py_strip_def
  NAME_EXCEPTIONS_def char_defs

lemmas parse_defs = parse_box_names_def and_then_def raise_for_status_def meta_match_def
  any_char_def product_name_def

lemmas contents_defs = get_box_contents_def and_then_def product_match_def product_tail_def
  any_char_def li_match_def li_close_def not_newline_def backslash_def path_name_def
  is_space_def Let_def

lemmas site_defs = site_def fetch_def listing_page_def not_found_def meta_of_label_def
  json_of_label_def label_41_def label_95_def listing_docs_def hb_url_def

lemmas box_defs = site_def fetch_def not_found_def hb_url_def detail_page_def escaped_nl_def
  product_text_def product_json_def box_41_def box_41_url_def esp32_text_def esp32_json_def
  one_line_text_def one_line_json_def

subsection \<open>Strings\<close>

lemma py_partition_None:
  assumes "sep \<noteq> []"
  shows "py_partition sep s = None \<longleftrightarrow> \<not> (\<exists>a b. s = a @ sep @ b)"
proof (induction s)
  case Nil
  with assms show ?case by simp
next
  case (Cons c cs)
  show ?case
  proof (cases "strip_prefix sep (c # cs)")
    case (Some rest)
    then have "c # cs = [] @ sep @ rest"
      by (simp add: strip_prefix_Some)
    then have "\<exists>a b. c # cs = a @ sep @ b"
      by blast
    with Some show ?thesis by simp
  next
    case None
    have "(\<exists>a b. c # cs = a @ sep @ b) \<longleftrightarrow> (\<exists>a b. cs = a @ sep @ b)"
    proof
      assume "\<exists>a b. c # cs = a @ sep @ b"
      then obtain a b where ab: "c # cs = a @ sep @ b" by blast
      show "\<exists>a b. cs = a @ sep @ b"
      proof (cases a)
        case Nil
        with ab have "strip_prefix sep (c # cs) = Some b"
          by (simp add: strip_prefix_Some)
        with None show ?thesis by simp
      next
        case (Cons x a')
        with ab show ?thesis by auto
      qed
    next
      assume "\<exists>a b. cs = a @ sep @ b"
      then obtain a b where "cs = a @ sep @ b" by blast
      then have "c # cs = (c # a) @ sep @ b" by simp
      then show "\<exists>a b. c # cs = a @ sep @ b" by blast
    qed
    with None Cons.IH show ?thesis by simp
  qed
qed


subsection \<open>The pagination loop\<close>

lemma walk_pages_next:
  "parse_box_names e (page_url i) = Inr names \<Longrightarrow>
   walk_pages e i boxes = walk_pages e (Suc i) (boxes @ names)"
  by (subst walk_pages.simps) simp

lemma walk_pages_break:
  "parse_box_names e (page_url i) = Inl err \<Longrightarrow> ends_pagination err \<Longrightarrow>
   walk_pages e i boxes = Some (Inr boxes)"
  by (subst walk_pages.simps) simp

lemma walk_pages_raise:
  "parse_box_names e (page_url i) = Inl err \<Longrightarrow> \<not> ends_pagination err \<Longrightarrow>
   walk_pages e i boxes = Some (Inl err)"
  by (subst walk_pages.simps) simp

text \<open>
  Pages \<open>i\<close>, \<open>i + 1\<close>, ... list the boxes \<open>pages\<close>, and the page after them raises one
  of the two caught exceptions: the loop returns what it had, then the pages, in order.
\<close>

lemma walk_pages_collects:
  assumes "\<forall>j<length pages. parse_box_names e (page_url (i + j)) = Inr (pages ! j)"
    and "parse_box_names e (page_url (i + length pages)) = Inl err"
    and "ends_pagination err"
  shows "walk_pages e i boxes = Some (Inr (boxes @ concat pages))"
  using assms
proof (induction pages arbitrary: i boxes)
  case Nil
  then show ?case by (simp add: walk_pages_break)
next
  case (Cons names pages)
  from Cons.prems(1) have first: "parse_box_names e (page_url i) = Inr names"
    by fastforce
  have later: "\<forall>j<length pages. parse_box_names e (page_url (Suc i + j)) = Inr (pages ! j)"
  proof (intro allI impI)
    fix j assume "j < length pages"
    with Cons.prems(1)
    have "parse_box_names e (page_url (i + Suc j)) = Inr ((names # pages) ! Suc j)"
      by (metis Suc_less_eq length_Cons)
    then show "parse_box_names e (page_url (Suc i + j)) = Inr (pages ! j)"
      by simp
  qed
  from Cons.prems(2) have "parse_box_names e (page_url (Suc i + length pages)) = Inl err"
    by simp
  from Cons.IH [OF later this Cons.prems(3)] first show ?case
    by (simp add: walk_pages_next)
qed

text \<open>Raised after the same pages, any other exception leaves the loop and the function.\<close>

lemma walk_pages_propagates:
  assumes "\<forall>j<length pages. parse_box_names e (page_url (i + j)) = Inr (pages ! j)"
    and "parse_box_names e (page_url (i + length pages)) = Inl err"
    and "\<not> ends_pagination err"
  shows "walk_pages e i boxes = Some (Inl err)"
  using assms
proof (induction pages arbitrary: i boxes)
  case Nil
  then show ?case by (simp add: walk_pages_raise)
next
  case (Cons names pages)
  from Cons.prems(1) have first: "parse_box_names e (page_url i) = Inr names"
    by fastforce
  have later: "\<forall>j<length pages. parse_box_names e (page_url (Suc i + j)) = Inr (pages ! j)"
  proof (intro allI impI)
    fix j assume "j < length pages"
    with Cons.prems(1)
    have "parse_box_names e (page_url (i + Suc j)) = Inr ((names # pages) ! Suc j)"
      by (metis Suc_less_eq length_Cons)
    then show "parse_box_names e (page_url (Suc i + j)) = Inr (pages ! j)"
      by simp
  qed
  from Cons.prems(2) have "parse_box_names e (page_url (Suc i + length pages)) = Inl err"
    by simp
  from Cons.IH [OF later this Cons.prems(3)] first show ?case
    by (simp add: walk_pages_next)
qed

text \<open>The loop returns only because some page raises: when none does, it runs forever.\<close>

lemma walk_pages_never_returns:
  assumes "\<forall>i\<ge>n. \<exists>names. parse_box_names e (page_url i) = Inr names"
  shows "walk_pages e n boxes = None"
proof (cases "walk_pages e n boxes")
  case (Some y)
  have "\<not> (e' = e \<and> n \<le> i)" if "walk_pages e' i bs = Some y" for e' i bs
  proof (rule walk_pages.raw_induct
      [where P = "\<lambda>e' i bs y. \<not> (e' = e \<and> n \<le> i)", OF _ that])
    fix walk e' i bs y
    assume IH: "\<And>e' i bs y. walk e' i bs = Some y \<Longrightarrow> \<not> (e' = e \<and> n \<le> i)"
      and step: "(case parse_box_names e' (page_url i) of
                    Inl err \<Rightarrow> if ends_pagination err then Some (Inr bs) else Some (Inl err)
                  | Inr names \<Rightarrow> walk e' (Suc i) (bs @ names)) = Some y"
    show "\<not> (e' = e \<and> n \<le> i)"
    proof
      assume here: "e' = e \<and> n \<le> i"
      with assms obtain names where "parse_box_names e' (page_url i) = Inr names"
        by blast
      with step have "walk e' (Suc i) (bs @ names) = Some y"
        by simp
      from IH [OF this] here show False
        by simp
    qed
  qed
  from this [OF Some] show ?thesis
    by simp
qed simp

lemma page_url_2: "page_url 2 = hb_url @ ''?page=2''"
  by (simp add: page_url_def digits_def)

lemma page_url_3: "page_url 3 = hb_url @ ''?page=3''"
  by (simp add: page_url_def digits_def)

lemma parse_box_names_http_error:
  "session_get e url = Inr r \<Longrightarrow> raise_for_status r = Inl HTTPError \<Longrightarrow>
   parse_box_names e url = Inl HTTPError"
  by (simp add: parse_box_names_def and_then_def)

lemma parse_box_names_no_products:
  "session_get e url = Inr r \<Longrightarrow> raise_for_status r = Inr () \<Longrightarrow>
   re_search meta_match (resp_text r) = None \<Longrightarrow>
   parse_box_names e url = Inl (AssertionError (No_products_found_for url))"
  by (simp add: parse_box_names_def and_then_def)

lemma parse_box_names_empty_list:
  "session_get e url = Inr r \<Longrightarrow> raise_for_status r = Inr () \<Longrightarrow>
   re_search meta_match (resp_text r) = Some g \<Longrightarrow> json_loads e g = Inr meta \<Longrightarrow>
   subscript_key meta ''products'' = Inr (JArr []) \<Longrightarrow>
   parse_box_names e url = Inl (AssertionError No_message)"
  by (simp add: parse_box_names_def and_then_def)

lemma two_pages_1: "parse_box_names two_pages hb_url = Inr [''hackerbox-0041-circuit-breaker'']"
  by (simp add: two_pages_def site_defs parse_defs normalize_defs)

lemma two_pages_2:
  "parse_box_names two_pages (hb_url @ ''?page=2'') = Inr [''hackerbox-0095-ai-camera'']"
  by (simp add: two_pages_def site_defs parse_defs normalize_defs)

lemma two_pages_3: "session_get two_pages (hb_url @ ''?page=3'') = Inr not_found"
  by (simp add: two_pages_def site_def fetch_def hb_url_def)

lemma not_found_raises: "raise_for_status not_found = Inl HTTPError"
  by (simp add: raise_for_status_def not_found_def)

text \<open>
  C1. When the base page and page 2 each list boxes and the fetch of page 3 is answered
  with a status for which \<^verbatim>\<open>raise_for_status\<close> raises, \<^verbatim>\<open>get_all_boxes\<close> returns the
  boxes of page 1 followed by those of page 2, in their order, and raises nothing.
\<close>

theorem get_all_boxes_page3_failure:
  assumes "parse_box_names e hb_url = Inr page1" and "page1 \<noteq> []"
    and "parse_box_names e (hb_url @ ''?page=2'') = Inr page2" and "page2 \<noteq> []"
    and "session_get e (hb_url @ ''?page=3'') = Inr r"
    and "raise_for_status r = Inl HTTPError"
  shows "get_all_boxes e = Some (Inr (page1 @ page2))"
proof -
  have "parse_box_names e (page_url 3) = Inl HTTPError"
    using assms(5,6) by (simp add: page_url_3 parse_box_names_http_error)
  then have "walk_pages e 3 (page1 @ page2) = Some (Inr (page1 @ page2))"
    by (rule walk_pages_break) simp
  moreover have "walk_pages e 2 page1 = walk_pages e (Suc 2) (page1 @ page2)"
    using assms(3) by (intro walk_pages_next) (simp add: page_url_2)
  ultimately show ?thesis
    using assms(1) by (simp add: get_all_boxes_def numeral_3_eq_3)
qed

theorem get_all_boxes_page3_failure_witness:
  "parse_box_names two_pages hb_url = Inr [''hackerbox-0041-circuit-breaker''] \<and>
   parse_box_names two_pages (hb_url @ ''?page=2'') = Inr [''hackerbox-0095-ai-camera''] \<and>
   session_get two_pages (hb_url @ ''?page=3'') = Inr not_found \<and>
   raise_for_status not_found = Inl HTTPError \<and>
   get_all_boxes two_pages
     = Some (Inr [''hackerbox-0041-circuit-breaker'', ''hackerbox-0095-ai-camera''])"
  using get_all_boxes_page3_failure [OF two_pages_1 _ two_pages_2 _ two_pages_3 not_found_raises]
    two_pages_1 two_pages_2 two_pages_3 not_found_raises
  by simp

lemma site_down_1: "parse_box_names site_down hb_url = Inl HTTPError"
  by (simp add: site_down_def site_defs parse_defs)

lemma one_page_1: "parse_box_names one_page hb_url = Inr [''hackerbox-0041-circuit-breaker'']"
  by (simp add: one_page_def site_defs parse_defs normalize_defs)

lemma one_page_2:
  "parse_box_names one_page (page_url 2)
     = Inl (AssertionError (No_products_found_for (hb_url @ ''?page=2'')))"
  by (simp add: page_url_2) (simp add: one_page_def site_defs parse_defs)

text \<open>
  C10. The first call of \<^verbatim>\<open>parse_box_names\<close> is outside the \<^verbatim>\<open>try\<close>: whatever it raises,
  an HTTP failure and a failed assertion included, \<^verbatim>\<open>get_all_boxes\<close> raises too. Raised
  by a later page, after pages that listed boxes, the two caught exceptions end the loop
  and the boxes collected so far are returned.
\<close>

theorem get_all_boxes_first_page:
  "(parse_box_names e hb_url = Inl err \<longrightarrow> get_all_boxes e = Some (Inl err)) \<and>
   (parse_box_names e hb_url = Inr page1 \<and>
    (\<forall>j<length pages. parse_box_names e (page_url (2 + j)) = Inr (pages ! j)) \<and>
    parse_box_names e (page_url (2 + length pages)) = Inl err' \<and> ends_pagination err'
    \<longrightarrow> get_all_boxes e = Some (Inr (page1 @ concat pages)))"
  by (simp add: get_all_boxes_def walk_pages_collects)

theorem get_all_boxes_first_page_witness:
  "parse_box_names site_down hb_url = Inl HTTPError \<and>
   get_all_boxes site_down = Some (Inl HTTPError) \<and>
   parse_box_names one_page hb_url = Inr [''hackerbox-0041-circuit-breaker''] \<and>
   parse_box_names one_page (page_url 2)
     = Inl (AssertionError (No_products_found_for (hb_url @ ''?page=2''))) \<and>
   get_all_boxes one_page = Some (Inr [''hackerbox-0041-circuit-breaker''])"
  using get_all_boxes_first_page [of site_down HTTPError "[]" "[]" HTTPError]
    get_all_boxes_first_page
      [of one_page HTTPError "[''hackerbox-0041-circuit-breaker'']" "[]"
          "AssertionError (No_products_found_for (hb_url @ ''?page=2''))"]
    site_down_1 one_page_1 one_page_2
  by simp

subsection \<open>The name normalizer\<close>

text \<open>
  C2. The label \<^verbatim>\<open>HackerBox #0095 - AI Camera Lab - Build a Vision System\<close> is normalized
  to \<^verbatim>\<open>hackerbox-0095-ai-camera\<close>: the title is cut at the first \<^verbatim>\<open>" - "\<close> after the
  number, which gives the slug \<^verbatim>\<open>hackerbox-0095-ai-camera-lab\<close>, and the exception table
  replaces that slug.
\<close>

theorem normalize_name_ai_camera:
  "normalize_name ''HackerBox #0095 - AI Camera Lab - Build a Vision System''
     = Inr ''hackerbox-0095-ai-camera'' \<and>
   slug_of_raw_name ''AI Camera Lab - Build a Vision System'' = ''ai-camera-lab'' \<and>
   NAME_EXCEPTIONS ''hackerbox-0095-ai-camera-lab'' = Some ''hackerbox-0095-ai-camera''"
  by (simp add: normalize_defs)

text \<open>The two other labels the specification gives.\<close>

lemma normalize_name_circuit_breaker:
  "normalize_name ''HackerBox #0041 - Circuit Breaker'' = Inr ''hackerbox-0041-circuit-breaker''"
  by (simp add: normalize_defs)

lemma normalize_name_inventors_kit:
  "normalize_name ''HackerBox #0010 - Inventor's Kit'' = Inr ''hackerbox-0010-inventors-kit''"
  by (simp add: normalize_defs)

text \<open>
  C9. When what follows the first 11 characters of a label does not contain \<^verbatim>\<open>" - "\<close>,
  normalizing the label raises \<^verbatim>\<open>ValueError\<close> and returns no slug; so does the loop body
  on a product with that name, and \<^verbatim>\<open>ValueError\<close> is not one of the exceptions the
  pagination loop catches.
\<close>

theorem normalize_name_without_separator:
  assumes "\<not> (\<exists>a b. drop 11 label = a @ '' - '' @ b)"
  shows "normalize_name label = Inl ValueError \<and>
         product_name (JObj [(''variants'', JArr [JObj [(''name'', JStr label)]])])
           = Inl ValueError \<and>
         \<not> ends_pagination ValueError"
proof -
  from assms have "py_partition '' - '' (drop 11 label) = None"
    by (simp add: py_partition_None)
  then have "normalize_name label = Inl ValueError"
    by (simp add: normalize_name_def py_split1_def)
  then show ?thesis
    by (simp add: product_name_def and_then_def)
qed

theorem normalize_name_without_separator_witness:
  "\<not> (\<exists>a b. drop 11 ''HackerBox #0041 Circuit Breaker'' = a @ '' - '' @ b) \<and>
   normalize_name ''HackerBox #0041 Circuit Breaker'' = Inl ValueError"
proof -
  have "py_partition '' - '' (drop 11 ''HackerBox #0041 Circuit Breaker'') = None"
    by simp
  then have "\<not> (\<exists>a b. drop 11 ''HackerBox #0041 Circuit Breaker'' = a @ '' - '' @ b)"
    by (simp only: py_partition_None [of "'' - ''"] list.distinct not_False_eq_True)
  with normalize_name_without_separator [OF this] show ?thesis
    by simp
qed

subsection \<open>Slugs and the slug pattern\<close>

lemma lower_char_digit: "c \<in> set digits \<Longrightarrow> lower_char c = c"
  unfolding digits_def
  by (simp only: set_simps insert_iff empty_iff) (elim disjE; simp add: char_defs)

lemma lower_char_lower: "c \<in> set lowers \<Longrightarrow> lower_char c = c"
  unfolding lowers_def
  by (simp only: set_simps insert_iff empty_iff) (elim disjE; simp add: char_defs)

lemma lower_char_upper: "c \<in> set uppers \<Longrightarrow> lower_char c \<in> set lowers"
  unfolding uppers_def
  by (simp only: set_simps insert_iff empty_iff) (elim disjE; simp add: char_defs)

lemma lower_char_slug: "is_alnum c \<Longrightarrow> is_slug_char (lower_char c)"
  using lower_char_digit lower_char_lower lower_char_upper
  by (auto simp only: is_alnum_def is_slug_char_def)

lemma lower_char_hyphen: "lower_char CHR ''-'' = CHR ''-''"
  by (simp add: char_defs)

lemma hyphen_not_slug_char: "\<not> is_slug_char CHR ''-''"
  by (simp add: is_slug_char_def digits_def lowers_def)

lemma alnum_not_space: "is_alnum c \<Longrightarrow> \<not> is_space c"
  by (auto simp: is_alnum_def is_space_def digits_def lowers_def uppers_def)

lemma alnum_not_hyphen: "is_alnum c \<Longrightarrow> c \<noteq> CHR ''-''"
  by (auto simp: is_alnum_def digits_def lowers_def uppers_def)

lemma hyphen_not_space: "\<not> is_space CHR ''-''"
  by (simp add: is_space_def)

lemma slug_re_from_hyphen:
  assumes "slug_re_from st a"
  shows "slug_re_from st (a @ CHR ''-'' # rest) = slug_re_from False rest"
  using assms
proof (induction a arbitrary: st)
  case Nil
  then show ?case by (simp add: hyphen_not_slug_char)
next
  case (Cons c a)
  then show ?case by (auto split: if_splits)
qed

lemma split_ws_nonempty:
  assumes "w \<noteq> [] \<or> (\<exists>c \<in> set s. \<not> is_space c)"
  shows "split_ws w s \<noteq> []"
  using assms
proof (induction s arbitrary: w)
  case Nil
  then show ?case by simp
next
  case (Cons c s)
  then show ?case by auto
qed

text \<open>
  The words of a cleaned title. While \<^verbatim>\<open>split\<close> reads, the word \<open>w\<close> read so far leaves the
  matcher of the pattern in a state \<open>q\<close>; a word that ends with a hyphen is followed by a
  letter or digit. Then every word, in lower case, matches the pattern.
\<close>

lemma split_ws_slug_words:
  assumes "list_all (\<lambda>c. is_alnum c \<or> is_space c \<or> c = CHR ''-'') s"
    and "hyphens_from q s"
    and "\<And>rest. slug_re_from False (py_lower w @ rest) = slug_re_from q rest"
    and "w \<noteq> [] \<Longrightarrow> \<not> q \<Longrightarrow> s \<noteq> [] \<and> is_alnum (hd s)"
  shows "list_all (\<lambda>x. slug_re_from False (py_lower x)) (split_ws w s)"
  using assms
proof (induction s arbitrary: w q)
  case Nil
  show ?case
  proof (cases "w = []")
    case True
    then show ?thesis by simp
  next
    case False
    with Nil.prems(4) have q by blast
    with Nil.prems(3) [of "[]"] False show ?thesis by simp
  qed
next
  case (Cons c cs)
  from Cons.prems(1) have rest_chars: "list_all (\<lambda>c. is_alnum c \<or> is_space c \<or> c = CHR ''-'') cs"
    and c: "is_alnum c \<or> is_space c \<or> c = CHR ''-''"
    by simp_all
  have start: "slug_re_from False (py_lower [] @ rest) = slug_re_from False rest" for rest
    by (simp add: py_lower_def)
  consider (space) "is_space c" | (alnum) "is_alnum c" | (hyphen) "c = CHR ''-''"
    using c by blast
  then show ?case
  proof cases
    case space
    then have not_alnum: "\<not> is_alnum c" and not_hyphen: "c \<noteq> CHR ''-''"
      using alnum_not_space hyphen_not_space by blast+
    with Cons.prems(2) have hy: "hyphens_from False cs"
      by simp
    have tail: "list_all (\<lambda>x. slug_re_from False (py_lower x)) (split_ws [] cs)"
      using rest_chars hy start by (rule Cons.IH) simp
    show ?thesis
    proof (cases "w = []")
      case True
      with tail space show ?thesis by simp
    next
      case False
      with Cons.prems(4) not_alnum have q by auto
      with Cons.prems(3) [of "[]"] have "slug_re_from False (py_lower w)" by simp
      with tail space False show ?thesis by simp
    qed
  next
    case alnum
    then have not_space: "\<not> is_space c" and not_hyphen: "c \<noteq> CHR ''-''"
      using alnum_not_space alnum_not_hyphen by blast+
    with Cons.prems(2) alnum have hy: "hyphens_from True cs"
      by simp
    have state: "slug_re_from False (py_lower (w @ [c]) @ rest) = slug_re_from True rest" for rest
      using Cons.prems(3) [of "lower_char c # rest"] lower_char_slug [OF alnum]
      by (simp add: py_lower_def)
    have "list_all (\<lambda>x. slug_re_from False (py_lower x)) (split_ws (w @ [c]) cs)"
      using rest_chars hy state by (rule Cons.IH) simp
    with not_space show ?thesis by simp
  next
    case hyphen
    with Cons.prems(2) have q and next_alnum: "cs \<noteq> [] \<and> is_alnum (hd cs)"
      and hy: "hyphens_from False cs"
      by (auto split: list.splits)
    have state: "slug_re_from False (py_lower (w @ [c]) @ rest) = slug_re_from False rest" for rest
      using Cons.prems(3) [of "CHR ''-'' # rest"] \<open>q\<close> hyphen
      by (simp add: py_lower_def lower_char_hyphen hyphen_not_slug_char)
    have "list_all (\<lambda>x. slug_re_from False (py_lower x)) (split_ws (w @ [c]) cs)"
      using rest_chars hy state next_alnum by (rule Cons.IH)
    with hyphen hyphen_not_space show ?thesis by simp
  qed
qed

text \<open>Words that match the pattern, joined with hyphens, match it.\<close>

lemma slug_re_from_join:
  assumes "list_all (\<lambda>x. slug_re_from False (py_lower x)) ws" and "ws \<noteq> []"
  shows "slug_re_from False (py_lower (py_join ''-'' ws))"
  using assms
proof (induction ws)
  case Nil
  then show ?case by simp
next
  case (Cons x ws)
  show ?case
  proof (cases ws)
    case Nil
    with Cons.prems show ?thesis by simp
  next
    case tail: (Cons y ys)
    with Cons have rest: "slug_re_from False (py_lower (py_join ''-'' (y # ys)))"
      by simp
    have "py_lower (py_join ''-'' (x # y # ys))
        = py_lower x @ CHR ''-'' # py_lower (py_join ''-'' (y # ys))"
      by (simp add: py_lower_def lower_char_hyphen)
    moreover from Cons.prems have "slug_re_from False (py_lower x)"
      by simp
    ultimately show ?thesis
      using rest tail by (simp add: slug_re_from_hyphen)
  qed
qed

lemma NAME_EXCEPTIONS_slug:
  "NAME_EXCEPTIONS k = Some m \<Longrightarrow> matches_slug_re m"
  by (auto simp: NAME_EXCEPTIONS_def matches_slug_re_def is_slug_char_def digits_def lowers_def
      split: if_splits)

lemma sub_non_slug_chars_alnum: "list_all is_alnum s \<Longrightarrow> sub_non_slug_chars s = s"
  by (induction s) (simp_all add: sub_non_slug_chars_def)

lemma slug_of_raw_name_matches:
  assumes "title = (case py_partition '' - '' raw_name of Some (a, b) \<Rightarrow> a | None \<Rightarrow> raw_name)"
    and "py_isalnum title \<longrightarrow> list_all is_alnum title"
    and "hyphens_between_alnum (sub_non_slug_chars title)"
    and "\<exists>c \<in> set title. is_alnum c"
  shows "matches_slug_re (slug_of_raw_name raw_name)"
proof -
  let ?cleaned = "sub_non_slug_chars title"
  have "(if \<not> py_isalnum title then ?cleaned else title) = ?cleaned"
    using assms(2) by (simp add: sub_non_slug_chars_alnum)
  then have name: "slug_of_raw_name raw_name = py_lower (py_join ''-'' (py_split ?cleaned))"
    using assms(1)
    by (auto simp: slug_of_raw_name_def py_contains_def py_split1_def Let_def
        split: option.splits)
  have chars: "list_all (\<lambda>c. is_alnum c \<or> is_space c \<or> c = CHR ''-'') ?cleaned"
    by (simp add: sub_non_slug_chars_def list_all_iff)
  from assms(4) obtain c where "c \<in> set title" "is_alnum c" by blast
  then have "c \<in> set ?cleaned"
    by (simp add: sub_non_slug_chars_def)
  with \<open>is_alnum c\<close> have "\<exists>c \<in> set ?cleaned. \<not> is_space c"
    using alnum_not_space by blast
  then have "py_split ?cleaned \<noteq> []"
    by (simp add: py_split_def split_ws_nonempty)
  moreover have "list_all (\<lambda>x. slug_re_from False (py_lower x)) (split_ws [] ?cleaned)"
    using chars assms(3) [unfolded hyphens_between_alnum_def]
    by (rule split_ws_slug_words) (simp_all add: py_lower_def)
  ultimately show ?thesis
    by (simp add: name matches_slug_re_def py_split_def slug_re_from_join)
qed

text \<open>
  C4, as stated, fails: a label may contain \<^verbatim>\<open>" - "\<close> after its prefix and still give
  a slug that does not match. The title \<^verbatim>\<open>!!!\<close> has no letter or digit, the name is empty
  and the slug ends with a hyphen.
\<close>

theorem normalize_name_trailing_hyphen:
  "py_contains '' - '' (drop 11 ''HackerBox #0001 - !!!'') \<and>
   normalize_name ''HackerBox #0001 - !!!'' = Inr ''hackerbox-0001-'' \<and>
   \<not> matches_slug_re ''hackerbox-0001-''"
  by (simp add: normalize_defs matches_slug_re_def is_slug_char_def)

text \<open>Nor is the number checked: it is copied into the slug as it is.\<close>

lemma normalize_name_number_unchecked:
  "normalize_name ''HackerBox #00 41 - Circuit Breaker'' = Inr ''hackerbox-00 41-circuit-breaker'' \<and>
   \<not> matches_slug_re ''hackerbox-00 41-circuit-breaker''"
  by (simp add: normalize_defs matches_slug_re_def is_slug_char_def)

text \<open>
  Line 49 keeps the hyphens of a title. One between two letters gives a slug that
  matches; one next to a blank is joined to the hyphen that replaces the blank.
\<close>

lemma normalize_name_hyphen_kept:
  "normalize_name ''HackerBox #0001 - Wi-Fi'' = Inr ''hackerbox-0001-wi-fi'' \<and>
   matches_slug_re ''hackerbox-0001-wi-fi''"
  by (simp add: normalize_defs matches_slug_re_def is_slug_char_def)

lemma normalize_name_hyphen_after_blank:
  "normalize_name ''HackerBox #0001 - Wi -Fi'' = Inr ''hackerbox-0001-wi--fi'' \<and>
   \<not> matches_slug_re ''hackerbox-0001-wi--fi''"
  by (simp add: normalize_defs matches_slug_re_def is_slug_char_def)

text \<open>
  A title of letters and digits only is not cleaned (line 48), so a letter outside ASCII,
  here the e with acute accent, \<^verbatim>\<open>0xE9\<close>, stays in the slug.
\<close>

lemma normalize_name_latin1_letter:
  "normalize_name (''HackerBox #0001 - Caf'' @ [CHR 0xE9]) = Inr (''hackerbox-0001-caf'' @ [CHR 0xE9]) \<and>
   \<not> matches_slug_re (''hackerbox-0001-caf'' @ [CHR 0xE9])"
  by (simp add: normalize_defs matches_slug_re_def is_slug_char_def)

text \<open>
  C4, amended. Let the text after the first 11 characters of a label split at its first
  \<^verbatim>\<open>" - "\<close> into a number and a rest, and let the title be the rest up to its first
  \<^verbatim>\<open>" - "\<close>. The label is normalized to a slug that matches \<^verbatim>\<open>[a-z0-9]+(-[a-z0-9]+)*\<close>,
  after the exception table is applied, when the number without its surrounding
  whitespace matches the pattern; the title has at least one of \<^verbatim>\<open>[a-zA-Z0-9]\<close>; a title
  made of letters and digits only has them all in \<^verbatim>\<open>[a-zA-Z0-9]\<close>; and in the title
  without the characters that line 49 removes, every hyphen stands directly between two
  of \<^verbatim>\<open>[a-zA-Z0-9]\<close>.
\<close>

theorem normalize_name_slug:
  assumes "py_partition '' - '' (drop 11 label) = Some (number, raw_name)"
    and "matches_slug_re (py_strip number)"
    and "title = (case py_partition '' - '' raw_name of Some (a, b) \<Rightarrow> a | None \<Rightarrow> raw_name)"
    and "\<exists>c \<in> set title. is_alnum c"
    and "py_isalnum title \<longrightarrow> list_all is_alnum title"
    and "hyphens_between_alnum (sub_non_slug_chars title)"
  shows "\<exists>slug. normalize_name label = Inr slug \<and> matches_slug_re slug"
proof -
  let ?full = "''hackerbox-'' @ py_strip number @ ''-'' @ slug_of_raw_name raw_name"
  have "matches_slug_re (slug_of_raw_name raw_name)"
    using assms(3,5,6,4) by (rule slug_of_raw_name_matches)
  then have "slug_re_from False (py_strip number @ CHR ''-'' # slug_of_raw_name raw_name)"
    using assms(2) by (simp add: matches_slug_re_def slug_re_from_hyphen)
  moreover have "slug_re_from False ''hackerbox''"
    by (simp add: is_slug_char_def digits_def lowers_def)
  ultimately have "slug_re_from False
      (''hackerbox'' @ CHR ''-'' # py_strip number @ CHR ''-'' # slug_of_raw_name raw_name)"
    by (simp only: slug_re_from_hyphen)
  then have full: "matches_slug_re ?full"
    by (simp add: matches_slug_re_def)
  have "normalize_name label = Inr (case NAME_EXCEPTIONS ?full of Some m \<Rightarrow> m | None \<Rightarrow> ?full)"
    using assms(1) by (simp add: normalize_name_def py_split1_def Let_def split: option.splits)
  with full show ?thesis
    by (auto dest: NAME_EXCEPTIONS_slug split: option.splits)
qed

theorem normalize_name_slug_witness:
  "py_partition '' - '' (drop 11 ''HackerBox #0077 - Wi-Fi Inventor's Kit - Second Edition'')
     = Some (''0077'', ''Wi-Fi Inventor's Kit - Second Edition'') \<and>
   matches_slug_re (py_strip ''0077'') \<and>
   py_partition '' - '' ''Wi-Fi Inventor's Kit - Second Edition''
     = Some (''Wi-Fi Inventor's Kit'', ''Second Edition'') \<and>
   (\<exists>c \<in> set ''Wi-Fi Inventor's Kit''. is_alnum c) \<and>
   \<not> py_isalnum ''Wi-Fi Inventor's Kit'' \<and>
   sub_non_slug_chars ''Wi-Fi Inventor's Kit'' = ''Wi-Fi Inventors Kit'' \<and>
   hyphens_between_alnum ''Wi-Fi Inventors Kit'' \<and>
   (\<exists>slug. normalize_name ''HackerBox #0077 - Wi-Fi Inventor's Kit - Second Edition'' = Inr slug \<and>
           matches_slug_re slug) \<and>
   normalize_name ''HackerBox #0077 - Wi-Fi Inventor's Kit - Second Edition''
     = Inr ''hackerbox-0077-wi-fi-inventors-kit''"
proof -
  have 1: "py_partition '' - '' (drop 11 ''HackerBox #0077 - Wi-Fi Inventor's Kit - Second Edition'')
     = Some (''0077'', ''Wi-Fi Inventor's Kit - Second Edition'')"
    by simp
  have 2: "matches_slug_re (py_strip ''0077'')"
    by (simp add: py_strip_def matches_slug_re_def is_slug_char_def is_space_def digits_def)
  have 3: "py_partition '' - '' ''Wi-Fi Inventor's Kit - Second Edition''
     = Some (''Wi-Fi Inventor's Kit'', ''Second Edition'')"
    by simp
  then have title: "''Wi-Fi Inventor's Kit'' =
      (case py_partition '' - '' ''Wi-Fi Inventor's Kit - Second Edition'' of
         Some (a, b) \<Rightarrow> a | None \<Rightarrow> ''Wi-Fi Inventor's Kit - Second Edition'')"
    by simp
  have 4: "\<exists>c \<in> set ''Wi-Fi Inventor's Kit''. is_alnum c"
    by (simp add: is_alnum_def uppers_def)
  have 5: "\<not> py_isalnum ''Wi-Fi Inventor's Kit''"
    by (simp add: py_isalnum_def char_defs)
  then have alnum: "py_isalnum ''Wi-Fi Inventor's Kit'' \<longrightarrow> list_all is_alnum ''Wi-Fi Inventor's Kit''"
    by simp
  have 6: "sub_non_slug_chars ''Wi-Fi Inventor's Kit'' = ''Wi-Fi Inventors Kit''"
    by (simp add: sub_non_slug_chars_def is_alnum_def is_space_def digits_def lowers_def uppers_def)
  have 7: "hyphens_between_alnum ''Wi-Fi Inventors Kit''"
    by (simp add: hyphens_between_alnum_def is_alnum_def digits_def lowers_def uppers_def)
  then have hy: "hyphens_between_alnum (sub_non_slug_chars ''Wi-Fi Inventor's Kit'')"
    by (simp only: 6)
  have 8: "normalize_name ''HackerBox #0077 - Wi-Fi Inventor's Kit - Second Edition''
     = Inr ''hackerbox-0077-wi-fi-inventors-kit''"
    by (simp add: normalize_defs)
  from normalize_name_slug [OF 1 2 title 4 alnum hy] 1 2 3 4 5 6 7 8 show ?thesis
    by (simp only: simp_thms)
qed

subsection \<open>The items of a description\<close>














text \<open>
  Two items on neighbouring lines share a line feed; the match of the first takes it, and
  the second is passed over.
\<close>

lemma description_items_shared_newline:
  "description_items (JStr ''<ul>\<newline><li>a</li>\<newline><li>b</li>\<newline></ul>'') = Inr [''a'']"
  by (simp add: li_match_def li_close_def not_newline_def backslash_def)

text \<open>
  The lazy \<^verbatim>\<open>.*?\<close> ends the opening tag at the first \<^verbatim>\<open>>\<close>: when an attribute has one,
  what is extracted begins inside the tag.
\<close>

lemma description_items_gt_in_attribute:
  \<open>description_items (JStr ''<ul>\<newline><li title="a>b">y</li>\<newline></ul>'') = Inr [''b">y'']\<close>
  by (simp add: li_match_def li_close_def not_newline_def backslash_def)



subsection \<open>The two rows of a box\<close>

lemma strip_prefix_close_li:
  assumes "py_partition ''</li>'' (c # b) = None"
  shows "strip_prefix ''</li>'' (c # b @ ''</li>'' @ rest) = None"
proof (cases "strip_prefix ''</li>'' (c # b @ ''</li>'' @ rest)")
  case (Some r)
  then have eq: "c # b @ ''</li>'' @ rest = ''</li>'' @ r"
    by (simp only: strip_prefix_Some)
  have "''</li>'' \<noteq> []"
    by simp
  from py_partition_None [OF this, of "c # b"] assms
  have no: "\<not> (\<exists>a b'. c # b = a @ ''</li>'' @ b')"
    by blast
  from eq no show ?thesis
    by (cases b; cases "tl b"; cases "tl (tl b)"; cases "tl (tl (tl b))")
      (auto simp: Cons_eq_append_conv)
qed simp

lemma py_partition_close_li:
  assumes "py_partition ''</li>'' b = None"
  shows "py_partition ''</li>'' (b @ ''</li>'' @ rest) = Some (b, rest)"
  using assms
proof (induction b)
  case Nil
  then show ?case by simp
next
  case (Cons c b)
  then have "py_partition ''</li>'' b = None"
    by (auto split: option.splits)
  with Cons.IH have "py_partition ''</li>'' (b @ ''</li>'' @ rest) = Some (b, rest)" .
  with strip_prefix_close_li [OF Cons.prems, of rest] show ?case
    by (simp del: strip_prefix.simps)
qed

lemma strip_li_items_wrap:
  assumes "list_all (\<lambda>b. \<not> py_contains ''</li>'' b) bs"
  shows "strip_li_items (wrap_li bs) = Some bs"
  using assms
proof (induction bs)
  case Nil
  then show ?case by (simp add: wrap_li_def)
next
  case (Cons b bs)
  then have "\<not> py_contains ''</li>'' b"
    by simp
  then have "py_partition ''</li>'' b = None"
    unfolding py_contains_def by blast
  then have "py_partition ''</li>'' (b @ ''</li>'' @ wrap_li bs) = Some (b, wrap_li bs)"
    by (rule py_partition_close_li)
  moreover have "wrap_li (b # bs) = CHR ''<'' # ''li>'' @ b @ ''</li>'' @ wrap_li bs"
    by (simp add: wrap_li_def)
  moreover have "strip_prefix ''<li>'' (CHR ''<'' # ''li>'' @ b @ ''</li>'' @ wrap_li bs)
      = Some (b @ ''</li>'' @ wrap_li bs)"
    by simp
  ultimately show ?case
    using Cons by (simp del: strip_prefix.simps py_partition.simps)
qed

lemma strip_suffix_append: "strip_suffix p (s @ p) = Some s"
  by (simp add: strip_suffix_def strip_prefix_Some [THEN iffD2])

lemma strip_wrapping_wrap:
  assumes "list_all (\<lambda>b. \<not> py_contains ''</li>'' b) bs"
  shows "strip_wrapping (''<ul>'' @ wrap_li bs @ ''</ul>'') = Some bs"
proof -
  have "strip_prefix ''<ul>'' (''<ul>'' @ wrap_li bs @ ''</ul>'') = Some (wrap_li bs @ ''</ul>'')"
    by (simp only: strip_prefix_Some)
  then show ?thesis
    by (simp only: strip_wrapping_def strip_suffix_append strip_li_items_wrap [OF assms]
        option.simps)
qed

text \<open>Lines 92 to 97: the table row wraps the very items the JSON row lists.\<close>

lemma get_box_contents_rows:
  assumes "get_box_contents e written name = Inr ((t, j), written')"
  shows "t ''contents'' = Some (''<ul>'' @ wrap_li (json_contents j) @ ''</ul>'')"
  using assms
  by (auto simp: get_box_contents_def and_then_def Let_def wrap_li_def
      split: sum.splits option.splits if_splits)

text \<open>
  C3, as stated, fails: an extracted item may itself contain \<^verbatim>\<open></li><li>\<close> (two items
  written on one line are extracted as one), and once wrapped it cannot be told from two
  items. The JSON row has the one item \<^verbatim>\<open>a</li><li>b\<close>; the wrappers taken off the table
  row leave the two items \<^verbatim>\<open>a\<close> and \<^verbatim>\<open>b\<close>.
\<close>

theorem table_contents_two_items:
  "map_sum id (\<lambda>((t, j), written). (t ''contents'', json_contents j))
     (get_box_contents one_line_box [] box_41)
     = Inr (Some ''<ul><li>a</li><li>b</li></ul>'', [''a</li><li>b'']) \<and>
   strip_wrapping ''<ul><li>a</li><li>b</li></ul>'' = Some [''a'', ''b'']"
  by (simp add: one_line_box_def box_defs contents_defs strip_wrapping_def strip_suffix_def)

text \<open>
  C3, amended. For every call of \<^verbatim>\<open>get_box_contents\<close> that returns, if no item of the
  JSON row contains \<^verbatim>\<open></li>\<close>, then the contents of the table row, with the one outer
  \<^verbatim>\<open><ul></ul>\<close> and the \<^verbatim>\<open><li></li>\<close> around each item taken off, are the items of the JSON
  row, in the same order.
\<close>

theorem table_contents_round_trip:
  assumes "get_box_contents e written name = Inr ((t, j), written')"
    and "list_all (\<lambda>b. \<not> py_contains ''</li>'' b) (json_contents j)"
  shows "Option.bind (t ''contents'') strip_wrapping = Some (json_contents j)"
  using get_box_contents_rows [OF assms(1)] strip_wrapping_wrap [OF assms(2)]
  by simp

lemma box_served_rows:
  "get_box_contents box_served [] box_41
     = Inr (([''name'' \<mapsto> ''['' @ box_41 @ '']('' @ box_41_url @ '')'',
              ''picture'' \<mapsto> ''!['' @ box_41 @ ''](assets/'' @ box_41 @ ''.png)'',
              ''contents'' \<mapsto> ''<ul><li>ESP32</li></ul>''],
             \<lparr>json_name = box_41,
              json_picture = ''!['' @ box_41 @ ''](assets/'' @ box_41 @ ''.png)'',
              json_contents = [''ESP32'']\<rparr>),
            [(box_41 @ ''.png'', ''PNG'')])"
  by (simp add: box_served_def box_defs contents_defs)

theorem table_contents_round_trip_witness:
  "map_sum id (\<lambda>((t, j), written). (t ''contents'', json_contents j))
     (get_box_contents box_served [] box_41)
     = Inr (Some ''<ul><li>ESP32</li></ul>'', [''ESP32'']) \<and>
   list_all (\<lambda>b. \<not> py_contains ''</li>'' b) [''ESP32''] \<and>
   Option.bind (Some ''<ul><li>ESP32</li></ul>'') strip_wrapping = Some [''ESP32'']"
proof -
  have "list_all (\<lambda>b. \<not> py_contains ''</li>'' b) [''ESP32'']"
    by (simp add: py_contains_def)
  with table_contents_round_trip [OF box_served_rows] box_served_rows show ?thesis
    by simp
qed

text \<open>
  C6. \<^verbatim>\<open>get_box_contents\<close> never looks at the status of a response. When the image is
  answered with status 404 the call returns its two rows, and the body of the error page
  is what is written as the image; when the detail page is answered with status 500 and
  has the product in it, the call returns its rows as well.
\<close>

theorem get_box_contents_ignores_status:
  "requests_get image_missing (Url ''https://cdn.example.com/0041.png'')
     = Inr \<lparr>status_code = 404, resp_text = ''Not Found'', content = ''Not Found''\<rparr> \<and>
   get_box_contents image_missing [] ''hackerbox-0041-circuit-breaker''
     = Inr (([''name'' \<mapsto> ''[hackerbox-0041-circuit-breaker](https://hackerboxes.com/collections/past-hackerboxes/products/hackerbox-0041-circuit-breaker)'',
              ''picture'' \<mapsto> ''![hackerbox-0041-circuit-breaker](assets/hackerbox-0041-circuit-breaker.png)'',
              ''contents'' \<mapsto> ''<ul><li>ESP32</li></ul>''],
             \<lparr>json_name = ''hackerbox-0041-circuit-breaker'',
              json_picture = ''![hackerbox-0041-circuit-breaker](assets/hackerbox-0041-circuit-breaker.png)'',
              json_contents = [''ESP32'']\<rparr>),
            [(''hackerbox-0041-circuit-breaker.png'', ''Not Found'')]) \<and>
   map_sum id status_code
     (session_get detail_500
        ''https://hackerboxes.com/collections/past-hackerboxes/products/hackerbox-0041-circuit-breaker'')
     = Inr 500 \<and>
   map_sum id (\<lambda>((t, j), written). (json_contents j, written))
     (get_box_contents detail_500 [] ''hackerbox-0041-circuit-breaker'')
     = Inr ([''ESP32''], [(''hackerbox-0041-circuit-breaker.png'', ''PNG'')])"
  by (simp add: image_missing_def detail_500_def box_defs contents_defs)

text \<open>The listing page, fetched by the sibling \<^verbatim>\<open>parse_box_names\<close>, does check the status.\<close>

lemma parse_box_names_checks_status:
  "session_get e url = Inr r \<Longrightarrow> 400 \<le> status_code r \<Longrightarrow> status_code r < 600 \<Longrightarrow>
   parse_box_names e url = Inl HTTPError"
  by (simp add: parse_box_names_def and_then_def raise_for_status_def)

subsection \<open>The table\<close>

text \<open>
  C7. For the headers \<^verbatim>\<open>["a","b"]\<close> and the one row \<^verbatim>\<open>{"a":"x","b":"y"}\<close> the table is
  the three lines \<^verbatim>\<open>| a | b |\<close>, \<^verbatim>\<open>| --- | --- |\<close>, \<^verbatim>\<open>| x | y |\<close>, each ended by a line
  feed; each run of dashes has the length of its header plus two, which is 3.
\<close>

theorem generate_a_b:
  "table_text [''a'', ''b''] [[''a'' \<mapsto> ''x'', ''b'' \<mapsto> ''y'']]
     = Inr ''| a | b |\<newline>| --- | --- |\<newline>| x | y |\<newline>'' \<and>
   replicate (length ''a'' + 2) CHR ''-'' = ''---'' \<and>
   replicate (length ''b'' + 2) CHR ''-'' = ''---''"
  by (simp add: table_text_def MarkdownTable_def generate_def make_headers_def make_rows_def
      and_then_def py_strip_def is_space_def)

text \<open>The loop of \<^verbatim>\<open>__init__\<close> stops at the first row that lacks a header.\<close>

lemma check_rows_find:
  "check_rows hs rs =
     (case find (\<lambda>row. \<not> list_all (\<lambda>h. row h \<noteq> None) hs) rs of
        None \<Rightarrow> Inr ()
      | Some row \<Rightarrow> Inl (AssertionError (Missing_header_for row)))"
  by (induction rs) auto

text \<open>
  C8. When some row lacks a header key, building the table fails with the assertion
  whose message is formatted from the first such row, so no table exists to render and
  no text is produced.
\<close>

theorem MarkdownTable_missing_header:
  assumes "\<exists>row \<in> set rs. \<exists>h \<in> set hs. row h = None"
  shows "\<exists>row \<in> set rs.
           (\<exists>h \<in> set hs. row h = None) \<and>
           find (\<lambda>row. \<not> list_all (\<lambda>h. row h \<noteq> None) hs) rs = Some row \<and>
           MarkdownTable hs rs = Inl (AssertionError (Missing_header_for row)) \<and>
           table_text hs rs = Inl (AssertionError (Missing_header_for row))"
proof -
  let ?bad = "\<lambda>row. \<not> list_all (\<lambda>h. row h \<noteq> None) hs"
  from assms obtain r where "r \<in> set rs" "?bad r"
    by (auto simp: list_all_iff)
  then obtain row where found: "find ?bad rs = Some row"
    by (cases "find ?bad rs") (auto simp: find_None_iff)
  then have "row \<in> set rs" and "?bad row"
    by (auto simp: find_Some_iff)
  moreover from found have "MarkdownTable hs rs = Inl (AssertionError (Missing_header_for row))"
    by (simp add: MarkdownTable_def check_rows_find and_then_def)
  ultimately show ?thesis
    using found by (auto simp: table_text_def and_then_def list_all_iff)
qed

theorem MarkdownTable_missing_header_witness:
  "(\<exists>row \<in> set [[''a'' \<mapsto> ''x'', ''b'' \<mapsto> ''y''], [''a'' \<mapsto> ''z'']].
      \<exists>h \<in> set [''a'', ''b'']. row h = None) \<and>
   table_text [''a'', ''b''] [[''a'' \<mapsto> ''x'', ''b'' \<mapsto> ''y''], [''a'' \<mapsto> ''z'']]
     = Inl (AssertionError (Missing_header_for [''a'' \<mapsto> ''z'']))"
proof -
  have h: "\<exists>row \<in> set [[''a'' \<mapsto> ''x'', ''b'' \<mapsto> ''y''], [''a'' \<mapsto> ''z'']].
      \<exists>h \<in> set [''a'', ''b'']. row h = None"
    by simp
  from MarkdownTable_missing_header [OF h] h show ?thesis
    by simp
qed

end
